theory Spec2Isabelle
  imports Main "HOL-Library.AList"
begin

section \<open>JavaScript strings\<close>

text \<open>
  A JavaScript string is a sequence of UTF-16 code units. The code units are natural
  numbers here, so that the two line terminators beyond Latin-1 (U+2028 and U+2029,
  8232 and 8233) that the regular expression of \<open>dedupeErrors\<close> treats specially are
  ordinary values. \<open>js\<close> turns a literal of the theory into such a string.
\<close>

type_synonym jsstring = "nat list"

definition js :: "string \<Rightarrow> jsstring" where
  "js s = map of_char s"

text \<open>\<open>String.prototype.endsWith\<close>.\<close>

definition endsWith :: "jsstring \<Rightarrow> jsstring \<Rightarrow> bool" where
  "endsWith s suffix =
     (length suffix \<le> length s \<and> drop (length s - length suffix) s = suffix)"

text \<open>
  \<open>String(n)\<close> for a byte count: the decimal digits of a natural number. (Asset sizes
  are non-negative integers; they are \<open>nat\<close> here.)
\<close>

function number_to_string :: "nat \<Rightarrow> jsstring" where
  "number_to_string n =
     (if n < 10 then [48 + n] else number_to_string (n div 10) @ [48 + n mod 10])"
  by pat_completeness auto
termination
  by (relation "measure id") auto

declare number_to_string.simps [simp del]

section \<open>The regular expression of \<open>dedupeErrors\<close>\<close>

text \<open>
  The source is
  \<^verbatim>\<open>const re = /BabelLoaderError(.|\n)+( {4}at transpile)/gim;\<close>
  \<^verbatim>\<open>return items.map(item => item.replace(re, '$2'));\<close>

  \<^item> \<open>.\<close> (no \<open>s\<close> flag) matches every code unit except the four line terminators
    LF, CR, U+2028, U+2029; the alternative \<open>\n\<close> adds LF back.
  \<^item> With the \<open>i\<close> flag (and no \<open>u\<close> flag) two code units match when their
    canonical forms agree. The pattern's literal characters are ASCII; an ASCII letter
    canonicalises to its upper case, and no code unit from 128 on canonicalises to an
    ASCII one. \<open>canonicalize\<close> is the identity from 128 on, which decides every
    comparison with an ASCII pattern character as the engine does.
  \<^item> The \<open>m\<close> flag changes \<open>^\<close> and \<open>$\<close> only, which the pattern does not use.
  \<^item> \<open>(.|\n)+\<close> is greedy: it takes as many code units as it can and gives them back
    one at a time until the rest of the pattern matches.
  \<^item> With the \<open>g\<close> flag \<open>replace\<close> rewrites every match, scanning from the left and
    resuming after each match; \<open>'$2'\<close> is the text matched by the second group.
\<close>

definition line_terminator :: "nat \<Rightarrow> bool" where
  "line_terminator c = (c = 10 \<or> c = 13 \<or> c = 8232 \<or> c = 8233)"

definition dot :: "nat \<Rightarrow> bool" where
  "dot c = (\<not> line_terminator c)"

definition dot_or_newline :: "nat \<Rightarrow> bool" where
  "dot_or_newline c = (dot c \<or> c = 10)"

definition canonicalize :: "nat \<Rightarrow> nat" where
  "canonicalize c = (if 97 \<le> c \<and> c \<le> 122 then c - 32 else c)"

text \<open>The literal \<open>p\<close> matches, ignoring case, at the start of \<open>s\<close>.\<close>

definition literal_i :: "jsstring \<Rightarrow> jsstring \<Rightarrow> bool" where
  "literal_i p s =
     (length p \<le> length s \<and> map canonicalize (take (length p) s) = map canonicalize p)"

definition marker :: jsstring where
  "marker = js ''BabelLoaderError''"

definition trace_fragment :: jsstring where
  "trace_fragment = js ''    at transpile''"

text \<open>
  \<open>group1 s\<close> runs \<open>(.|\n)+( {4}at transpile)\<close> on \<open>s\<close>: the number of code units the
  first group takes in the match the engine finds, or \<open>None\<close> when there is none. The
  group first tries to go on (the recursive call); when that fails it stops after the
  current code unit and the second group must match right there.
\<close>

fun group1 :: "jsstring \<Rightarrow> nat option" where
  "group1 [] = None"
| "group1 (c # cs) =
     (if dot_or_newline c
      then (case group1 cs of
              Some k \<Rightarrow> Some (Suc k)
            | None \<Rightarrow> if literal_i trace_fragment cs then Some 1 else None)
      else None)"

text \<open>
  One match attempt at the start of \<open>s\<close>: the length of the match and the text of the
  second group.
\<close>

definition re_exec :: "jsstring \<Rightarrow> (nat \<times> jsstring) option" where
  "re_exec s =
     (if literal_i marker s
      then (case group1 (drop (length marker) s) of
              None \<Rightarrow> None
            | Some k \<Rightarrow>
                Some (length marker + k + length trace_fragment,
                      take (length trace_fragment) (drop (length marker + k) s)))
      else None)"

text \<open>\<open>item.replace(re, '$2')\<close>.\<close>

function replace_re :: "jsstring \<Rightarrow> jsstring" where
  "replace_re [] = []"
| "replace_re (c # cs) =
     (case re_exec (c # cs) of
        Some (n, g2) \<Rightarrow> g2 @ replace_re (drop n (c # cs))
      | None \<Rightarrow> c # replace_re cs)"
  by pat_completeness auto
termination
  by (relation "measure length")
     (auto simp: re_exec_def marker_def js_def split: if_splits option.splits)

definition dedupeErrors :: "jsstring list \<Rightarrow> jsstring list" where
  "dedupeErrors items = map replace_re items"

text \<open>Whether the literal \<open>p\<close> occurs, ignoring case, anywhere in \<open>s\<close>.\<close>

fun occurs_i :: "jsstring \<Rightarrow> jsstring \<Rightarrow> bool" where
  "occurs_i p [] = literal_i p []"
| "occurs_i p (c # cs) = (literal_i p (c # cs) \<or> occurs_i p cs)"

section \<open>Compilation events and the log\<close>

text \<open>
  A hard error is an object with a \<open>stack\<close> and optional \<open>details\<close>; a property that
  is absent is \<open>None\<close>. A string is truthy when it is not empty.
\<close>

record js_error =
  message :: jsstring
  stack :: "jsstring option"
  details :: "jsstring option"

record asset =
  asset_name :: jsstring
  asset_size :: nat

record child =
  child_name :: jsstring
  assets :: "asset list"

record info =
  errors :: "jsstring list"
  warnings :: "jsstring list"
  children :: "child list"

text \<open>
  The stats object of the engine, by the three methods the reporter calls:
  \<open>toJson({context})\<close>, \<open>hasErrors()\<close>, \<open>hasWarnings()\<close>.
\<close>

record stats =
  toJson :: "jsstring \<Rightarrow> info"
  hasErrors :: bool
  hasWarnings :: bool

text \<open>
  The arguments \<open>(err, stats)\<close> of the engine's completion handler; \<open>err\<close> is \<open>None\<close>
  for \<open>null\<close>. The reporter reads \<open>stats\<close> only when \<open>err\<close> is \<open>null\<close>.
\<close>

type_synonym completion = "js_error option \<times> stats"

text \<open>What \<open>logger.error\<close> is given: a string, or the error object itself.\<close>

datatype logged = Str jsstring | Obj js_error

text \<open>The effects of the reporter: calls of the logger and of \<open>fs.writeFile\<close>.\<close>

datatype log_event =
    is_LogError: LogError logged
  | is_LogWarn: LogWarn jsstring
  | is_LogInfo: LogInfo jsstring
  | is_WriteFile: WriteFile jsstring jsstring

text \<open>
  The library functions the module calls and whose results it only passes on:
  \<open>path.resolve\<close>, \<open>path.join\<close>, \<open>JSON.stringify(info, null, 2)\<close>, \<open>chalk.bold\<close>.
\<close>

record host =
  path_resolve :: "jsstring list \<Rightarrow> jsstring"
  path_join :: "jsstring list \<Rightarrow> jsstring"
  json_stringify :: "info \<Rightarrow> jsstring"
  chalk_bold :: "jsstring \<Rightarrow> jsstring"

text \<open>
  \<open>Array.prototype.sort\<close> with a comparator, as an insertion sort: \<open>x\<close> goes before
  \<open>y\<close> unless the comparator is positive, so elements that the comparator ranks equal
  keep their order (the order of such elements is the only thing engines differ in).
\<close>

fun insert_by :: "('a \<Rightarrow> 'a \<Rightarrow> int) \<Rightarrow> 'a \<Rightarrow> 'a list \<Rightarrow> 'a list" where
  "insert_by cmp x [] = [x]"
| "insert_by cmp x (y # ys) =
     (if cmp x y \<le> 0 then x # y # ys else y # insert_by cmp x ys)"

definition array_sort :: "('a \<Rightarrow> 'a \<Rightarrow> int) \<Rightarrow> 'a list \<Rightarrow> 'a list" where
  "array_sort cmp xs = foldr (insert_by cmp) xs []"

text \<open>The three lines logged for one asset of one child build.\<close>

definition asset_lines :: "host \<Rightarrow> child \<Rightarrow> asset \<Rightarrow> log_event list" where
  "asset_lines h c a =
     [LogInfo (js ''Entrypoint: '' @ chalk_bold h (child_name c)),
      LogInfo (js ''Asset: '' @ chalk_bold h (asset_name a)),
      LogInfo (js ''Size: '' @ chalk_bold h (number_to_string (asset_size a)) @ js '' bytes'')]"

definition child_report :: "host \<Rightarrow> child \<Rightarrow> log_event list" where
  "child_report h c =
     concat (map (asset_lines h c)
       (array_sort (\<lambda>a b. int (asset_size b) - int (asset_size a))
         (filter (\<lambda>a. \<not> endsWith (asset_name a) (js ''.map'')) (assets c))))"

text \<open>
  \<open>getStatsLogger({dir, logger, envs})\<close> returns the reporter; the logger is the log
  the reporter's events go to.
\<close>

definition getStatsLogger :: "host \<Rightarrow> jsstring \<Rightarrow> jsstring list \<Rightarrow> completion \<Rightarrow> log_event list" where
  "getStatsLogger h dir envs = (\<lambda>(err, stats).
     let isProd = (js ''production'' \<in> set envs) in
     case err of
       Some e \<Rightarrow>
         LogError (case stack e of
                     Some s \<Rightarrow> if s \<noteq> [] then Str s else Obj e
                   | None \<Rightarrow> Obj e)
         # (case details e of
              Some d \<Rightarrow> if d \<noteq> [] then [LogError (Str d)] else []
            | None \<Rightarrow> [])
     | None \<Rightarrow>
         let file = path_resolve h [dir, js ''.fusion/stats.json''];
             info = toJson stats (path_resolve h [dir])
         in WriteFile file (json_stringify h info)
            # (if hasErrors stats
               then map (\<lambda>e. LogError (Str e)) (dedupeErrors (errors info)) else [])
            @ (if isProd then concat (map (child_report h) (children info)) else [])
            @ (if hasWarnings stats
               then map LogWarn (dedupeErrors (warnings info)) else []))"

section \<open>The orchestrator\<close>

subsection \<open>Shared state and the build profiles\<close>

text \<open>
  Objects that are shared by reference live in a store; an address is an index into it.
  \<open>alloc\<close> is \<open>new\<close> or an object literal: the new object gets the next free
  address.

  Modelled from the spec: \<open>DeferredState\<close> of \<open>shared-state-containers.js\<close>, which is
  not among the sources, is a container that is pending when created; only its creation
  is needed here.
\<close>

type_synonym addr = nat

datatype cell =
    DeferredState
  | Object "(jsstring \<times> addr) list"

definition alloc :: "cell list \<Rightarrow> cell \<Rightarrow> addr \<times> cell list" where
  "alloc store c = (length store, store @ [c])"

text \<open>
  \<open>legacyPkgConfig\<close>: what \<open>require\<close> returns for the application's
  \<open>package.json\<close>, or the empty object literal.
\<close>

datatype 'pkg legacy = Required 'pkg | EmptyObject

text \<open>
  The project-local collaborators: \<open>loadFusionRC\<close>, \<open>fs.existsSync\<close> and
  \<open>require\<close>.
\<close>

record ('rc, 'pkg) project =
  loadFusionRC :: "jsstring \<Rightarrow> 'rc"
  existsSync :: "jsstring \<Rightarrow> bool"
  require :: "jsstring \<Rightarrow> 'pkg"

text \<open>
  \<open>sharedOpts = {dir: root, watch, state, fusionConfig, legacyPkgConfig}\<close>, and the
  argument \<open>{target, env, ...sharedOpts}\<close> of the config provider: the spread copies
  the five properties, so \<open>state\<close> is the same address in every copy.
\<close>

record ('rc, 'pkg) shared_opts =
  dir :: jsstring
  watch :: bool
  state :: addr
  fusionConfig :: 'rc
  legacyPkgConfig :: "'pkg legacy"

record ('rc, 'pkg) opts = "('rc, 'pkg) shared_opts" +
  target :: jsstring
  env :: jsstring

definition spread :: "jsstring \<Rightarrow> jsstring \<Rightarrow> ('rc, 'pkg) shared_opts \<Rightarrow> ('rc, 'pkg) opts" where
  "spread t e sharedOpts =
     \<lparr>dir = dir sharedOpts, watch = watch sharedOpts, state = state sharedOpts,
      fusionConfig = fusionConfig sharedOpts, legacyPkgConfig = legacyPkgConfig sharedOpts,
      target = t, env = e\<rparr>"

text \<open>
  \<open>envs.map(env => [getWebpackConfig({target: 'web', ...}), getWebpackConfig({target:
  'node', ...})])\<close>. The config provider is a parameter; every call of it is appended
  to a call log, which is threaded through the loop.
\<close>

fun profiles ::
  "(('rc, 'pkg) opts \<Rightarrow> 'cfg) \<Rightarrow> ('rc, 'pkg) shared_opts \<Rightarrow> jsstring list \<Rightarrow>
   ('rc, 'pkg) opts list \<Rightarrow> 'cfg list list \<times> ('rc, 'pkg) opts list" where
  "profiles getWebpackConfig sharedOpts [] calls = ([], calls)"
| "profiles getWebpackConfig sharedOpts (e # es) calls =
     (let web_opts = spread (js ''web'') e sharedOpts;
          web_config = getWebpackConfig web_opts;
          calls1 = calls @ [web_opts];
          node_opts = spread (js ''node'') e sharedOpts;
          node_config = getWebpackConfig node_opts;
          calls2 = calls1 @ [node_opts];
          (rest, calls3) = profiles getWebpackConfig sharedOpts es calls2
      in ([web_config, node_config] # rest, calls3))"

text \<open>
  Modelled from the spec: the external build engine. It is made from an ordered list of
  configurations and has a hook table keyed by lifecycle-event name; \<open>tap\<close> on a hook
  appends a named callback. A callback is a number that identifies it in the trace.
\<close>

record 'cfg engine =
  configs :: "'cfg list"
  hooks :: "(jsstring \<times> (jsstring \<times> nat) list) list"

definition webpack :: "'cfg list \<Rightarrow> 'cfg engine" where
  "webpack cs =
     \<lparr>configs = cs,
      hooks = [(js ''done'', []), (js ''invalid'', []), (js ''run'', []),
               (js ''watchClose'', []), (js ''watchRun'', [])]\<rparr>"

text \<open>
  The arguments of \<open>Compiler\<close>; a property left out takes its default. The logger is
  not among them: what the logger is given is recorded in the log.
\<close>

record compiler_args =
  arg_dir :: "jsstring option"
  arg_envs :: "jsstring list option"
  arg_watch :: "bool option"

text \<open>
  The instance: what the closures \<open>on\<close>, \<open>start\<close>, \<open>getMiddleware\<close> and \<open>clean\<close>
  capture, the call log of the config provider, and the store.
\<close>

record ('cfg, 'rc, 'pkg) compiler =
  c_dir :: jsstring
  c_envs :: "jsstring list"
  c_watch :: bool
  c_sharedOpts :: "('rc, 'pkg) shared_opts"
  c_calls :: "('rc, 'pkg) opts list"
  c_compiler :: "'cfg engine"
  c_store :: "cell list"

definition Compiler ::
  "host \<Rightarrow> ('rc, 'pkg) project \<Rightarrow> (('rc, 'pkg) opts \<Rightarrow> 'cfg) \<Rightarrow> compiler_args \<Rightarrow>
   cell list \<Rightarrow> ('cfg, 'rc, 'pkg) compiler" where
  "Compiler h p getWebpackConfig args store0 =
     (let d = (case arg_dir args of None \<Rightarrow> js ''.'' | Some x \<Rightarrow> x);
          envs = (case arg_envs args of None \<Rightarrow> [] | Some x \<Rightarrow> x);
          w = (case arg_watch args of None \<Rightarrow> False | Some x \<Rightarrow> x);
          (clientChunkMetadata, store1) = alloc store0 DeferredState;
          (i18nManifest, store2) = alloc store1 DeferredState;
          (st, store3) = alloc store2
             (Object [(js ''clientChunkMetadata'', clientChunkMetadata),
                      (js ''i18nManifest'', i18nManifest)]);
          root = path_resolve h [d];
          fusionConfig = loadFusionRC p root;
          appPkgJsonPath = path_join h [root, js ''package.json''];
          legacyPkgConfig =
            (if existsSync p appPkgJsonPath then Required (require p appPkgJsonPath)
             else EmptyObject);
          sharedOpts = \<lparr>dir = root, watch = w, state = st, fusionConfig = fusionConfig,
                        legacyPkgConfig = legacyPkgConfig\<rparr>;
          (ps, calls) = profiles getWebpackConfig sharedOpts envs [];
          flattened = concat ps
      in \<lparr>c_dir = d, c_envs = envs, c_watch = w, c_sharedOpts = sharedOpts,
          c_calls = calls, c_compiler = webpack flattened, c_store = store3\<rparr>)"

subsection \<open>\<open>on\<close> and \<open>start\<close>\<close>

datatype js_exn = TypeError

text \<open>
  \<open>on(type, callback)\<close> is \<open>compiler.hooks[type].tap('compiler', callback)\<close>: a
  \<open>TypeError\<close> when the engine has no hook of that name.
\<close>

definition on ::
  "('cfg, 'rc, 'pkg) compiler \<Rightarrow> jsstring \<Rightarrow> nat \<Rightarrow> js_exn + ('cfg, 'rc, 'pkg) compiler" where
  "on C type callback =
     (case map_of (hooks (c_compiler C)) type of
        None \<Rightarrow> Inl TypeError
      | Some taps \<Rightarrow>
          Inr (C\<lparr>c_compiler := (c_compiler C)
                 \<lparr>hooks := AList.update type (taps @ [(js ''compiler'', callback)])
                             (hooks (c_compiler C))\<rparr>\<rparr>))"

text \<open>
  A function value: the \<open>noop\<close> of \<open>start\<close>, or a callback of the caller, which is
  identified by a number and observed by its calls. \<open>None\<close> is \<open>undefined\<close>; calling
  it is a \<open>TypeError\<close>.
\<close>

datatype fn = Noop | Spy nat

text \<open>
  What happens during a run: \<open>compiler.run\<close> or \<open>compiler.watch\<close> is called, the
  reporter runs (with the log it writes), the callback of \<open>start\<close> is called, a tapped
  hook is called, the watch controller is used.
\<close>

datatype event =
    is_RunCalled: RunCalled
  | is_WatchCalled: WatchCalled
  | is_Reported: Reported "log_event list"
  | is_Called: Called nat "js_error option" stats
  | is_Hooked: Hooked jsstring nat stats
  | WatchClosed
  | WatchInvalidated

definition invoke :: "fn option \<Rightarrow> completion \<Rightarrow> js_exn + event list" where
  "invoke f c =
     (case f of
        None \<Rightarrow> Inl TypeError
      | Some Noop \<Rightarrow> Inr []
      | Some (Spy k) \<Rightarrow> Inr [Called k (fst c) (snd c)])"

text \<open>
  \<open>handler\<close> of \<open>start\<close>. The variable \<open>hasCalledCb\<close> of the enclosing call is passed
  in and returned.
\<close>

definition handler ::
  "host \<Rightarrow> ('cfg, 'rc, 'pkg) compiler \<Rightarrow> fn option \<Rightarrow> bool \<Rightarrow> completion \<Rightarrow>
   js_exn + (event list \<times> bool)" where
  "handler h C cb hasCalledCb c =
     (let reported = Reported (getStatsLogger h (c_dir C) (c_envs C) c) in
      if \<not> hasCalledCb
      then (case invoke cb c of
              Inl x \<Rightarrow> Inl x
            | Inr called \<Rightarrow> Inr (reported # called, True))
      else Inr ([reported], hasCalledCb))"

text \<open>
  Modelled from the spec: the engine's \<open>run(callback)\<close> and \<open>watch(options,
  callback)\<close>. The engine is driven by the list of compilations it completes; for each
  one it calls the callbacks tapped on \<open>done\<close>, in the order they were tapped, and then
  the completion handler it was given.
\<close>

definition fire :: "'cfg engine \<Rightarrow> jsstring \<Rightarrow> stats \<Rightarrow> event list" where
  "fire E type s =
     (case map_of (hooks E) type of
        None \<Rightarrow> []
      | Some taps \<Rightarrow> map (\<lambda>t. Hooked type (snd t) s) taps)"

fun deliver ::
  "'cfg engine \<Rightarrow> (bool \<Rightarrow> completion \<Rightarrow> js_exn + (event list \<times> bool)) \<Rightarrow> bool \<Rightarrow>
   completion list \<Rightarrow> js_exn + event list" where
  "deliver E hdl b [] = Inr []"
| "deliver E hdl b (c # cs) =
     (case hdl b c of
        Inl x \<Rightarrow> Inl x
      | Inr (evs, b') \<Rightarrow>
          (case deliver E hdl b' cs of
             Inl x \<Rightarrow> Inl x
           | Inr rest \<Rightarrow> Inr (fire E (js ''done'') (snd c) @ evs @ rest)))"

text \<open>
  The controller \<open>start\<close> returns: the engine's watching object, or the object literal
  with the two empty methods.
\<close>

datatype controller = Watching | Stub

fun close :: "controller \<Rightarrow> event list" where
  "close Watching = [WatchClosed]"
| "close Stub = []"

fun invalidate :: "controller \<Rightarrow> event list" where
  "invalidate Watching = [WatchInvalidated]"
| "invalidate Stub = []"

text \<open>
  \<open>start(cb)\<close>, together with the completions the engine then delivers to the handler:
  the trace of the whole run and the controller returned.
\<close>

definition start ::
  "host \<Rightarrow> ('cfg, 'rc, 'pkg) compiler \<Rightarrow> fn option \<Rightarrow> completion list \<Rightarrow>
   js_exn + (event list \<times> controller)" where
  "start h C cb completions =
     (let cb = Some (case cb of None \<Rightarrow> Noop | Some f \<Rightarrow> f) in
      if c_watch C
      then (case deliver (c_compiler C) (handler h C cb) False completions of
              Inl x \<Rightarrow> Inl x
            | Inr tr \<Rightarrow> Inr (WatchCalled # tr, Watching))
      else (case deliver (c_compiler C) (handler h C cb) False completions of
              Inl x \<Rightarrow> Inl x
            | Inr tr \<Rightarrow> Inr (RunCalled # tr, Stub)))"

subsection \<open>\<open>getMiddleware\<close>\<close>

text \<open>
  The asset-serving middleware \<open>dev\<close> is external: on a request it either answers
  itself, or calls the callback it was given, with an error or without one. The
  hot-update middleware \<open>hot\<close> is external too; its call is an event. \<open>next\<close> is
  identified by a number.
\<close>

datatype 'e dev_outcome = Answered | Continue "'e option"

datatype ('req, 'res, 'e) mw_event =
    DevCalled 'req 'res
  | is_HotCalled: HotCalled 'req 'res nat
  | NextCalled nat "'e option"

definition getMiddleware ::
  "('req \<Rightarrow> 'res \<Rightarrow> 'e dev_outcome) \<Rightarrow> 'req \<Rightarrow> 'res \<Rightarrow> nat \<Rightarrow> ('req, 'res, 'e) mw_event list" where
  "getMiddleware dev req res next =
     DevCalled req res #
     (case dev req res of
        Answered \<Rightarrow> []
      | Continue err \<Rightarrow>
          (case err of
             Some e \<Rightarrow> [NextCalled next (Some e)]
           | None \<Rightarrow> [HotCalled req res next]))"

subsection \<open>\<open>clean\<close>\<close>

text \<open>
  \<open>rimraf(path, callback)\<close> is external: on a file system it removes the path and
  calls back with an error or with none. The promise of \<open>clean\<close> is given by how it
  settles.
\<close>

datatype 'e promise = Resolved | Rejected 'e

definition clean ::
  "('fs \<Rightarrow> jsstring \<Rightarrow> 'e option \<times> 'fs) \<Rightarrow> ('cfg, 'rc, 'pkg) compiler \<Rightarrow> 'fs \<Rightarrow>
   'e promise \<times> 'fs" where
  "clean rimraf C fs =
     (case rimraf fs (c_dir C @ js ''/.fusion'') of
        (e, fs') \<Rightarrow> (case e of Some x \<Rightarrow> Rejected x | None \<Rightarrow> Resolved, fs'))"

text \<open>
  Modelled from the spec: a \<open>rimraf\<close> for which an absent path is not an error. The
  file system maps a path to \<open>None\<close> when nothing is there, to \<open>Some None\<close> when what
  is there can be removed, and to \<open>Some (Some e)\<close> when removing it fails with \<open>e\<close>.
\<close>

definition rimraf_model ::
  "(jsstring \<Rightarrow> 'e option option) \<Rightarrow> jsstring \<Rightarrow> 'e option \<times> (jsstring \<Rightarrow> 'e option option)" where
  "rimraf_model fs p =
     (case fs p of
        None \<Rightarrow> (None, fs)
      | Some None \<Rightarrow> (None, fs(p := None))
      | Some (Some e) \<Rightarrow> (Some e, fs))"

section \<open>Concrete collaborators\<close>

text \<open>
  A host whose path functions put a slash before every segment and whose \<open>chalk.bold\<close>
  adds nothing, a project without \<open>package.json\<close>, and a compiler in watch mode, before
  and after a callback is tapped on \<open>done\<close>, for running the definitions on concrete
  inputs.
\<close>

definition plain_host :: host where
  "plain_host =
     \<lparr>path_resolve = (\<lambda>ps. concat (map (\<lambda>p. js ''/'' @ p) ps)),
      path_join = (\<lambda>ps. concat (map (\<lambda>p. js ''/'' @ p) ps)),
      json_stringify = (\<lambda>i. js ''{}''), chalk_bold = (\<lambda>s. s)\<rparr>"

definition bare_project :: "(unit, unit) project" where
  "bare_project =
     \<lparr>loadFusionRC = (\<lambda>root. ()), existsSync = (\<lambda>path. False), require = (\<lambda>path. ())\<rparr>"

definition target_and_env :: "(unit, unit) opts \<Rightarrow> jsstring \<times> jsstring" where
  "target_and_env opts = (target opts, env opts)"

definition quiet_stats :: stats where
  "quiet_stats =
     \<lparr>toJson = (\<lambda>context. \<lparr>errors = [], warnings = [], children = []\<rparr>),
      hasErrors = False, hasWarnings = False\<rparr>"

definition failure :: js_error where
  "failure = \<lparr>message = js ''boom'', stack = None, details = None\<rparr>"

definition watching_compiler :: "(jsstring \<times> jsstring, unit, unit) compiler" where
  "watching_compiler =
     Compiler plain_host bare_project target_and_env
       \<lparr>arg_dir = None, arg_envs = Some [js ''development''], arg_watch = Some True\<rparr> []"

definition done_tapped :: "(jsstring \<times> jsstring, unit, unit) compiler" where
  "done_tapped =
     (case on watching_compiler (js ''done'') 9 of
        Inr C \<Rightarrow> C
      | Inl x \<Rightarrow> watching_compiler)"

definition one_shot_compiler :: "(jsstring \<times> jsstring, unit, unit) compiler" where
  "one_shot_compiler =
     Compiler plain_host bare_project target_and_env
       \<lparr>arg_dir = None, arg_envs = Some [js ''development''], arg_watch = None\<rparr> []"

section \<open>Properties\<close>

lemma profiles_eq:
  "profiles g sh es calls =
     (map (\<lambda>e. [g (spread (js ''web'') e sh), g (spread (js ''node'') e sh)]) es,
      calls @ concat (map (\<lambda>e. [spread (js ''web'') e sh, spread (js ''node'') e sh]) es))"
  by (induction es arbitrary: calls) (simp_all add: Let_def)

lemma Compiler_calls:
  "c_calls (Compiler h p g args store0) =
     concat (map (\<lambda>e. [spread (js ''web'') e (c_sharedOpts (Compiler h p g args store0)),
                        spread (js ''node'') e (c_sharedOpts (Compiler h p g args store0))])
                 (c_envs (Compiler h p g args store0)))"
  by (simp add: Compiler_def Let_def alloc_def profiles_eq split: prod.splits)

lemma Compiler_configs:
  "configs (c_compiler (Compiler h p g args store0)) = map g (c_calls (Compiler h p g args store0))"
  by (simp add: Compiler_def Let_def alloc_def profiles_eq webpack_def map_concat comp_def split: prod.splits)

lemma length_pairs: "length (concat (map (\<lambda>e. [f e, g e]) es)) = 2 * length es"
  by (induction es) simp_all

lemma nth_pairs:
  "i < length es \<Longrightarrow> concat (map (\<lambda>e. [f e, g e]) es) ! (2 * i) = f (es ! i)
     \<and> concat (map (\<lambda>e. [f e, g e]) es) ! (2 * i + 1) = g (es ! i)"
proof (induction es arbitrary: i)
  case Nil
  then show ?case by simp
next
  case (Cons e es)
  show ?case
  proof (cases i)
    case 0
    then show ?thesis by simp
  next
    case (Suc j)
    with Cons.prems have "j < length es" by simp
    from Cons.IH [OF this] Suc show ?thesis by simp
  qed
qed


text \<open>
  Claim C3. For an environment list of length N the constructor calls the config provider
  exactly 2N times, for (web, env) and then (node, env) of each environment in the given
  order, and the engine is made from the 2N results in that order.
\<close>

theorem profiles_two_per_environment:
  "let C = Compiler h p getWebpackConfig args store0;
       envs = c_envs C;
       sharedOpts = c_sharedOpts C
   in envs = (case arg_envs args of None \<Rightarrow> [] | Some x \<Rightarrow> x)
    \<and> length (c_calls C) = 2 * length envs
    \<and> c_calls C =
        concat (map (\<lambda>e. [spread (js ''web'') e sharedOpts, spread (js ''node'') e sharedOpts]) envs)
    \<and> configs (c_compiler C) = map getWebpackConfig (c_calls C)
    \<and> length (configs (c_compiler C)) = 2 * length envs
    \<and> (\<forall>i<length envs.
          configs (c_compiler C) ! (2 * i) = getWebpackConfig (spread (js ''web'') (envs ! i) sharedOpts)
        \<and> configs (c_compiler C) ! (2 * i + 1) = getWebpackConfig (spread (js ''node'') (envs ! i) sharedOpts))"
proof -
  define C where "C = Compiler h p getWebpackConfig args store0"
  define sh where "sh = c_sharedOpts C"
  have envs: "c_envs C = (case arg_envs args of None \<Rightarrow> [] | Some x \<Rightarrow> x)"
    by (simp add: C_def Compiler_def Let_def split: prod.splits)
  have calls: "c_calls C =
      concat (map (\<lambda>e. [spread (js ''web'') e sh, spread (js ''node'') e sh]) (c_envs C))"
    unfolding C_def sh_def by (rule Compiler_calls)
  have cfgs: "configs (c_compiler C) = map getWebpackConfig (c_calls C)"
    unfolding C_def by (rule Compiler_configs)
  have cfgs': "configs (c_compiler C) =
      concat (map (\<lambda>e. [getWebpackConfig (spread (js ''web'') e sh),
                         getWebpackConfig (spread (js ''node'') e sh)]) (c_envs C))"
    by (simp add: cfgs calls map_concat comp_def)
  have len: "length (c_calls C) = 2 * length (c_envs C)"
    by (simp only: calls length_pairs)
  have nth: "\<forall>i<length (c_envs C).
          configs (c_compiler C) ! (2 * i) = getWebpackConfig (spread (js ''web'') (c_envs C ! i) sh)
        \<and> configs (c_compiler C) ! (2 * i + 1) = getWebpackConfig (spread (js ''node'') (c_envs C ! i) sh)"
    unfolding cfgs' by (intro allI impI nth_pairs)
  have len': "length (configs (c_compiler C)) = 2 * length (c_envs C)"
    by (simp add: cfgs len)
  show ?thesis
    unfolding Let_def C_def [symmetric] sh_def [symmetric]
    by (intro conjI envs len calls cfgs len' nth)
qed


theorem profiles_two_per_environment_witness:
  "(1::nat) < length [js ''development'', js ''production'']
   \<and> configs (c_compiler (Compiler plain_host bare_project target_and_env
        \<lparr>arg_dir = None, arg_envs = Some [js ''development'', js ''production''], arg_watch = None\<rparr> []))
       ! (2 * 1) = (js ''web'', js ''production'')
   \<and> configs (c_compiler (Compiler plain_host bare_project target_and_env
        \<lparr>arg_dir = None, arg_envs = Some [js ''development'', js ''production''], arg_watch = None\<rparr> []))
       ! (2 * 1 + 1) = (js ''node'', js ''production'')
   \<and> length (configs (c_compiler (Compiler plain_host bare_project target_and_env
        \<lparr>arg_dir = None, arg_envs = Some [js ''development'', js ''production''], arg_watch = None\<rparr> [])))
       = 4"
proof -
  let ?C = "Compiler plain_host bare_project target_and_env
        \<lparr>arg_dir = None, arg_envs = Some [js ''development'', js ''production''], arg_watch = None\<rparr> []"
  note T = profiles_two_per_environment [of plain_host bare_project target_and_env
        "\<lparr>arg_dir = None, arg_envs = Some [js ''development'', js ''production''], arg_watch = None\<rparr>" "[]",
        unfolded Let_def]
  have e: "c_envs ?C = [js ''development'', js ''production'']"
    using T by simp
  have l: "length (configs (c_compiler ?C)) = 2 * length (c_envs ?C)"
    using T by blast
  have n: "\<forall>i<length (c_envs ?C).
          configs (c_compiler ?C) ! (2 * i) = target_and_env (spread (js ''web'') (c_envs ?C ! i) (c_sharedOpts ?C))
        \<and> configs (c_compiler ?C) ! (2 * i + 1) = target_and_env (spread (js ''node'') (c_envs ?C ! i) (c_sharedOpts ?C))"
    using T by blast
  have "(1::nat) < length (c_envs ?C)"
    by (simp add: e)
  with n have "configs (c_compiler ?C) ! (2 * 1) = target_and_env (spread (js ''web'') (c_envs ?C ! 1) (c_sharedOpts ?C))
        \<and> configs (c_compiler ?C) ! (2 * 1 + 1) = target_and_env (spread (js ''node'') (c_envs ?C ! 1) (c_sharedOpts ?C))"
    by blast
  then show ?thesis
    using l by (simp add: e spread_def target_and_env_def)
qed

lemma Compiler_sharedOpts_state:
  "state (c_sharedOpts (Compiler h p g args store0)) = length store0 + 2"
  by (simp add: Compiler_def Let_def alloc_def split: prod.splits)

lemma Compiler_store:
  "c_store (Compiler h p g args store0) =
     store0 @ [DeferredState, DeferredState,
               Object [(js ''clientChunkMetadata'', length store0),
                       (js ''i18nManifest'', length store0 + 1)]]"
  by (simp add: Compiler_def Let_def alloc_def split: prod.splits)

lemma spread_shared [simp]:
  "state (spread t e sh) = state sh"
  "fusionConfig (spread t e sh) = fusionConfig sh"
  "legacyPkgConfig (spread t e sh) = legacyPkgConfig sh"
  "dir (spread t e sh) = dir sh"
  "watch (spread t e sh) = watch sh"
  "target (spread t e sh) = t"
  "env (spread t e sh) = e"
  by (simp_all add: spread_def)

text \<open>
  Claim C9. Every call of the config provider is passed the same state-bag address, the
  one allocated once by the constructor, and the same \<open>fusionConfig\<close> and
  \<open>legacyPkgConfig\<close>; in particular the web and the node call of one environment
  agree. The bag holds the two deferred containers the constructor created.
\<close>

theorem state_bag_shared:
  "let C = Compiler h p getWebpackConfig args store0;
       bag = state (c_sharedOpts C)
   in (\<forall>r \<in> set (c_calls C).
          state r = bag
        \<and> fusionConfig r = fusionConfig (c_sharedOpts C)
        \<and> legacyPkgConfig r = legacyPkgConfig (c_sharedOpts C))
    \<and> (\<forall>i<length (c_envs C).
          target (c_calls C ! (2 * i)) = js ''web'' \<and> env (c_calls C ! (2 * i)) = c_envs C ! i
        \<and> target (c_calls C ! (2 * i + 1)) = js ''node'' \<and> env (c_calls C ! (2 * i + 1)) = c_envs C ! i
        \<and> state (c_calls C ! (2 * i)) = state (c_calls C ! (2 * i + 1))
        \<and> fusionConfig (c_calls C ! (2 * i)) = fusionConfig (c_calls C ! (2 * i + 1))
        \<and> legacyPkgConfig (c_calls C ! (2 * i)) = legacyPkgConfig (c_calls C ! (2 * i + 1)))
    \<and> bag = length store0 + 2
    \<and> c_store C ! bag =
         Object [(js ''clientChunkMetadata'', length store0), (js ''i18nManifest'', length store0 + 1)]
    \<and> c_store C ! length store0 = DeferredState
    \<and> c_store C ! (length store0 + 1) = DeferredState
    \<and> take (length store0) (c_store C) = store0"
proof -
  define C where "C = Compiler h p getWebpackConfig args store0"
  define sh where "sh = c_sharedOpts C"
  have calls: "c_calls C =
      concat (map (\<lambda>e. [spread (js ''web'') e sh, spread (js ''node'') e sh]) (c_envs C))"
    unfolding C_def sh_def by (rule Compiler_calls)
  have all: "\<forall>r \<in> set (c_calls C).
          state r = state sh \<and> fusionConfig r = fusionConfig sh \<and> legacyPkgConfig r = legacyPkgConfig sh"
    unfolding calls by auto
  have pair: "\<forall>i<length (c_envs C).
          target (c_calls C ! (2 * i)) = js ''web'' \<and> env (c_calls C ! (2 * i)) = c_envs C ! i
        \<and> target (c_calls C ! (2 * i + 1)) = js ''node'' \<and> env (c_calls C ! (2 * i + 1)) = c_envs C ! i
        \<and> state (c_calls C ! (2 * i)) = state (c_calls C ! (2 * i + 1))
        \<and> fusionConfig (c_calls C ! (2 * i)) = fusionConfig (c_calls C ! (2 * i + 1))
        \<and> legacyPkgConfig (c_calls C ! (2 * i)) = legacyPkgConfig (c_calls C ! (2 * i + 1))"
  proof (intro allI impI)
    fix i assume "i < length (c_envs C)"
    from nth_pairs [OF this, of "\<lambda>e. spread (js ''web'') e sh" "\<lambda>e. spread (js ''node'') e sh"]
    show "target (c_calls C ! (2 * i)) = js ''web'' \<and> env (c_calls C ! (2 * i)) = c_envs C ! i
        \<and> target (c_calls C ! (2 * i + 1)) = js ''node'' \<and> env (c_calls C ! (2 * i + 1)) = c_envs C ! i
        \<and> state (c_calls C ! (2 * i)) = state (c_calls C ! (2 * i + 1))
        \<and> fusionConfig (c_calls C ! (2 * i)) = fusionConfig (c_calls C ! (2 * i + 1))
        \<and> legacyPkgConfig (c_calls C ! (2 * i)) = legacyPkgConfig (c_calls C ! (2 * i + 1))"
      unfolding calls by simp
  qed
  have bag: "state sh = length store0 + 2"
    unfolding sh_def C_def by (rule Compiler_sharedOpts_state)
  have store: "c_store C = store0 @ [DeferredState, DeferredState,
               Object [(js ''clientChunkMetadata'', length store0),
                       (js ''i18nManifest'', length store0 + 1)]]"
    unfolding C_def by (rule Compiler_store)
  have s1: "c_store C ! state sh =
         Object [(js ''clientChunkMetadata'', length store0), (js ''i18nManifest'', length store0 + 1)]"
    by (simp add: bag store nth_append)
  have s2: "c_store C ! length store0 = DeferredState"
    by (simp add: store)
  have s3: "c_store C ! (length store0 + 1) = DeferredState"
    by (simp add: store nth_append)
  have s4: "take (length store0) (c_store C) = store0"
    by (simp add: store)
  show ?thesis
    unfolding Let_def C_def [symmetric] sh_def [symmetric]
    by (intro conjI all pair bag s1 s2 s3 s4)
qed


theorem state_bag_shared_witness:
  "(1::nat) < length [js ''development'', js ''production'']
   \<and> state (c_calls (Compiler plain_host bare_project target_and_env
        \<lparr>arg_dir = None, arg_envs = Some [js ''development'', js ''production''], arg_watch = None\<rparr> [])
       ! (2 * 1)) = 2
   \<and> state (c_calls (Compiler plain_host bare_project target_and_env
        \<lparr>arg_dir = None, arg_envs = Some [js ''development'', js ''production''], arg_watch = None\<rparr> [])
       ! (2 * 1 + 1)) = 2
   \<and> c_store (Compiler plain_host bare_project target_and_env
        \<lparr>arg_dir = None, arg_envs = Some [js ''development'', js ''production''], arg_watch = None\<rparr> [])
       ! 2 = Object [(js ''clientChunkMetadata'', 0), (js ''i18nManifest'', 1)]"
proof -
  let ?C = "Compiler plain_host bare_project target_and_env
        \<lparr>arg_dir = None, arg_envs = Some [js ''development'', js ''production''], arg_watch = None\<rparr> []"
  note T = state_bag_shared [of plain_host bare_project target_and_env
        "\<lparr>arg_dir = None, arg_envs = Some [js ''development'', js ''production''], arg_watch = None\<rparr>" "[]",
        unfolded Let_def]
  have e: "c_envs ?C = [js ''development'', js ''production'']"
    by (simp add: Compiler_def Let_def split: prod.splits)
  have len: "length (c_calls ?C) = 4"
    by (simp add: Compiler_calls e)
  have b: "state (c_sharedOpts ?C) = 2"
    using T by simp
  have a: "\<forall>r \<in> set (c_calls ?C). state r = state (c_sharedOpts ?C)"
    using T by blast
  have "c_calls ?C ! (2 * 1) \<in> set (c_calls ?C)" "c_calls ?C ! (2 * 1 + 1) \<in> set (c_calls ?C)"
    by (simp_all add: len)
  with a b have r: "state (c_calls ?C ! (2 * 1)) = 2" "state (c_calls ?C ! (2 * 1 + 1)) = 2"
    by auto
  have s: "c_store ?C ! 2 = Object [(js ''clientChunkMetadata'', 0), (js ''i18nManifest'', 1)]"
      "c_store ?C ! 0 = DeferredState" "c_store ?C ! 1 = DeferredState"
    using T b by simp_all
  from r s show ?thesis
    by simp
qed

text \<open>
  Claim C6. The handler of \<open>getMiddleware\<close> calls the asset-serving middleware first.
  When that reports an error, the error goes to \<open>next\<close> and the hot-update middleware
  is not called; when it reports none, the hot-update middleware is called with the same
  request, response and \<open>next\<close>.
\<close>

theorem getMiddleware_chain:
  "hd (getMiddleware dev req res next) = DevCalled req res
   \<and> (dev req res = Continue (Some e) \<longrightarrow>
        getMiddleware dev req res next = [DevCalled req res, NextCalled next (Some e)])
   \<and> (dev req res = Continue None \<longrightarrow>
        getMiddleware dev req res next = [DevCalled req res, HotCalled req res next])
   \<and> ((\<exists>e. dev req res = Continue (Some e)) \<longrightarrow>
        \<not> list_ex is_HotCalled (getMiddleware dev req res next))"
  by (auto simp: getMiddleware_def)

theorem getMiddleware_chain_witness:
  "getMiddleware (\<lambda>req res. Continue (Some (500::nat))) (1::nat) (2::nat) 3
     = [DevCalled 1 2, NextCalled 3 (Some 500)]
   \<and> \<not> list_ex is_HotCalled (getMiddleware (\<lambda>req res. Continue (Some (500::nat))) (1::nat) (2::nat) 3)
   \<and> getMiddleware (\<lambda>req res. (Continue None :: nat dev_outcome)) (1::nat) (2::nat) 3
     = [DevCalled 1 2, HotCalled 1 2 3]"
  using getMiddleware_chain [of "\<lambda>req res. Continue (Some (500::nat))" "1::nat" "2::nat" 3 500]
        getMiddleware_chain [of "\<lambda>req res. (Continue None :: nat dev_outcome)" "1::nat" "2::nat" 3]
  by simp

text \<open>
  Claim C8. The promise of \<open>clean\<close> resolves exactly when \<open>rimraf\<close> reports no error,
  and rejects with the error \<open>rimraf\<close> reports exactly when it reports one. When
  \<open>rimraf\<close> does not treat an absent directory as an error (and leaves the file system
  as it is), \<open>clean\<close> on an absent directory resolves, and resolves again when called a
  second time.
\<close>

theorem clean_settles:
  "(fst (rimraf fs (c_dir C @ js ''/.fusion'')) = None \<longrightarrow>
      clean rimraf C fs = (Resolved, snd (rimraf fs (c_dir C @ js ''/.fusion''))))
   \<and> (fst (rimraf fs (c_dir C @ js ''/.fusion'')) = Some e \<longrightarrow>
      clean rimraf C fs = (Rejected e, snd (rimraf fs (c_dir C @ js ''/.fusion''))))
   \<and> (fst (clean rimraf C fs) = Resolved \<longleftrightarrow> fst (rimraf fs (c_dir C @ js ''/.fusion'')) = None)
   \<and> (fst (clean rimraf C fs) = Rejected e \<longleftrightarrow> fst (rimraf fs (c_dir C @ js ''/.fusion'')) = Some e)
   \<and> ((\<forall>fs'. absent fs' \<longrightarrow> rimraf fs' (c_dir C @ js ''/.fusion'') = (None, fs')) \<and> absent fs \<longrightarrow>
        clean rimraf C fs = (Resolved, fs)
      \<and> clean rimraf C (snd (clean rimraf C fs)) = (Resolved, fs))"
  by (auto simp: clean_def split: prod.splits option.splits)


lemma Compiler_dir:
  "c_dir (Compiler h p g args store0) = (case arg_dir args of None \<Rightarrow> js ''.'' | Some x \<Rightarrow> x)"
  by (simp add: Compiler_def Let_def split: prod.splits)

lemma Compiler_envs:
  "c_envs (Compiler h p g args store0) = (case arg_envs args of None \<Rightarrow> [] | Some x \<Rightarrow> x)"
  by (simp add: Compiler_def Let_def split: prod.splits)

lemma Compiler_watch:
  "c_watch (Compiler h p g args store0) = (case arg_watch args of None \<Rightarrow> False | Some x \<Rightarrow> x)"
  by (simp add: Compiler_def Let_def split: prod.splits)

lemma Compiler_hooks:
  "hooks (c_compiler (Compiler h p g args store0)) =
     [(js ''done'', []), (js ''invalid'', []), (js ''run'', []),
      (js ''watchClose'', []), (js ''watchRun'', [])]"
  by (simp add: Compiler_def Let_def webpack_def split: prod.splits)

theorem clean_settles_witness:
  "clean rimraf_model
     (Compiler plain_host bare_project target_and_env
        \<lparr>arg_dir = None, arg_envs = None, arg_watch = None\<rparr> [])
     (\<lambda>p. None :: nat option option) = (Resolved, \<lambda>p. None)
   \<and> clean rimraf_model
     (Compiler plain_host bare_project target_and_env
        \<lparr>arg_dir = None, arg_envs = None, arg_watch = None\<rparr> [])
     (snd (clean rimraf_model
       (Compiler plain_host bare_project target_and_env
          \<lparr>arg_dir = None, arg_envs = None, arg_watch = None\<rparr> [])
       (\<lambda>p. None :: nat option option))) = (Resolved, \<lambda>p. None)"
proof -
  let ?C = "Compiler plain_host bare_project target_and_env
        \<lparr>arg_dir = None, arg_envs = None, arg_watch = None\<rparr> []"
  let ?fs = "\<lambda>p::jsstring. None :: nat option option"
  note T = clean_settles [of rimraf_model ?fs ?C 0 "\<lambda>fs. fs (c_dir ?C @ js ''/.fusion'') = None"]
  have "\<forall>fs'::jsstring \<Rightarrow> nat option option. fs' (c_dir ?C @ js ''/.fusion'') = None \<longrightarrow>
          rimraf_model fs' (c_dir ?C @ js ''/.fusion'') = (None, fs')"
    by (simp add: rimraf_model_def)
  with T show ?thesis
    by simp
qed

lemma filter_asset_lines:
  "filter is_LogError (asset_lines h c a) = []"
  "filter is_LogWarn (asset_lines h c a) = []"
  "filter is_WriteFile (asset_lines h c a) = []"
  "filter is_LogInfo (asset_lines h c a) = asset_lines h c a"
  by (simp_all add: asset_lines_def)

lemma filter_child_report:
  "filter is_LogError (child_report h c) = []"
  "filter is_LogWarn (child_report h c) = []"
  "filter is_WriteFile (child_report h c) = []"
  "filter is_LogInfo (child_report h c) = child_report h c"
  by (simp_all add: child_report_def filter_concat comp_def filter_asset_lines)

lemma filter_children_report:
  "filter is_LogError (concat (map (child_report h) cs)) = []"
  "filter is_LogWarn (concat (map (child_report h) cs)) = []"
  "filter is_WriteFile (concat (map (child_report h) cs)) = []"
  "filter is_LogInfo (concat (map (child_report h) cs)) = concat (map (child_report h) cs)"
  by (simp_all add: filter_concat comp_def filter_child_report)

lemma filter_map_LogError:
  "filter is_LogError (map (\<lambda>e. LogError (f e)) xs) = map (\<lambda>e. LogError (f e)) xs"
  "filter is_LogWarn (map (\<lambda>e. LogError (f e)) xs) = []"
  "filter is_LogInfo (map (\<lambda>e. LogError (f e)) xs) = []"
  "filter is_WriteFile (map (\<lambda>e. LogError (f e)) xs) = []"
  by (induction xs) simp_all

lemma filter_map_LogWarn:
  "filter is_LogWarn (map LogWarn xs) = map LogWarn xs"
  "filter is_LogError (map LogWarn xs) = []"
  "filter is_LogInfo (map LogWarn xs) = []"
  "filter is_WriteFile (map LogWarn xs) = []"
  by (induction xs) simp_all

text \<open>
  Claim C10. \<open>dedupeErrors\<close> rewrites each message on its own and keeps every entry:
  the result has the length of the input, and two equal entries stay two entries. When
  the snapshot reports errors (warnings), one error (warning) line is logged per entry
  of the list.
\<close>

theorem dedupeErrors_keeps_every_entry:
  "length (dedupeErrors items) = length items
   \<and> (\<forall>i<length items. dedupeErrors items ! i = replace_re (items ! i))
   \<and> dedupeErrors (xs @ [m, m] @ ys) = dedupeErrors xs @ [replace_re m, replace_re m] @ dedupeErrors ys
   \<and> (hasErrors st \<longrightarrow>
        filter is_LogError (getStatsLogger h d envs (None, st))
          = map (\<lambda>e. LogError (Str (replace_re e))) (errors (toJson st (path_resolve h [d]))))
   \<and> (hasWarnings st \<longrightarrow>
        filter is_LogWarn (getStatsLogger h d envs (None, st))
          = map (\<lambda>e. LogWarn (replace_re e)) (warnings (toJson st (path_resolve h [d]))))"
  by (simp add: dedupeErrors_def getStatsLogger_def Let_def filter_children_report
        filter_map_LogError filter_map_LogWarn comp_def)


lemma invoke_Some:
  "invoke (Some f) c = Inr (case f of Noop \<Rightarrow> [] | Spy k \<Rightarrow> [Called k (fst c) (snd c)])"
  by (simp add: invoke_def split: fn.splits)

lemma handler_first:
  "handler h C (Some f) False c =
     Inr (Reported (getStatsLogger h (c_dir C) (c_envs C) c)
          # (case f of Noop \<Rightarrow> [] | Spy k \<Rightarrow> [Called k (fst c) (snd c)]), True)"
  by (simp add: handler_def invoke_Some)

lemma handler_later:
  "handler h C cb True c = Inr ([Reported (getStatsLogger h (c_dir C) (c_envs C) c)], True)"
  by (simp add: handler_def)

lemma deliver_later:
  "deliver E (handler h C cb) True cs =
     Inr (concat (map (\<lambda>c. fire E (js ''done'') (snd c)
                            @ [Reported (getStatsLogger h (c_dir C) (c_envs C) c)]) cs))"
  by (induction cs) (simp_all add: handler_later)

lemma deliver_first:
  "deliver E (handler h C (Some f)) False (c # cs) =
     Inr (fire E (js ''done'') (snd c)
          @ Reported (getStatsLogger h (c_dir C) (c_envs C) c)
          # (case f of Noop \<Rightarrow> [] | Spy k \<Rightarrow> [Called k (fst c) (snd c)])
          @ concat (map (\<lambda>c. fire E (js ''done'') (snd c)
                            @ [Reported (getStatsLogger h (c_dir C) (c_envs C) c)]) cs))"
  by (simp add: handler_first deliver_later)

lemma filter_fire:
  "filter is_Reported (fire E t s) = []"
  "filter is_Called (fire E t s) = []"
  "filter is_RunCalled (fire E t s) = []"
  "filter is_WatchCalled (fire E t s) = []"
  "filter is_Hooked (fire E t s) = fire E t s"
  by (simp_all add: fire_def split: option.splits)

lemmas re_eval = js_def re_exec_def marker_def trace_fragment_def literal_i_def
  canonicalize_def dot_or_newline_def dot_def line_terminator_def

theorem dedupeErrors_keeps_every_entry_witness:
  "(1::nat) < length [js ''Oops'', js ''Oops'']
   \<and> dedupeErrors [js ''Oops'', js ''Oops''] ! 1 = js ''Oops''
   \<and> hasErrors (quiet_stats\<lparr>toJson := (\<lambda>context. \<lparr>errors = [js ''Oops'', js ''Oops''],
          warnings = [js ''Hm'', js ''Hm''], children = []\<rparr>), hasErrors := True, hasWarnings := True\<rparr>)
   \<and> filter is_LogError (getStatsLogger plain_host (js ''.'') []
        (None, quiet_stats\<lparr>toJson := (\<lambda>context. \<lparr>errors = [js ''Oops'', js ''Oops''],
          warnings = [js ''Hm'', js ''Hm''], children = []\<rparr>), hasErrors := True, hasWarnings := True\<rparr>))
       = [LogError (Str (js ''Oops'')), LogError (Str (js ''Oops''))]
   \<and> filter is_LogWarn (getStatsLogger plain_host (js ''.'') []
        (None, quiet_stats\<lparr>toJson := (\<lambda>context. \<lparr>errors = [js ''Oops'', js ''Oops''],
          warnings = [js ''Hm'', js ''Hm''], children = []\<rparr>), hasErrors := True, hasWarnings := True\<rparr>))
       = [LogWarn (js ''Hm''), LogWarn (js ''Hm'')]"
proof -
  have r: "replace_re (js ''Oops'') = js ''Oops''" "replace_re (js ''Hm'') = js ''Hm''"
    by (simp_all add: re_eval)
  note T = dedupeErrors_keeps_every_entry [of "[js ''Oops'', js ''Oops'']" "[]" "[]" "[]"
     "quiet_stats\<lparr>toJson := (\<lambda>context. \<lparr>errors = [js ''Oops'', js ''Oops''],
          warnings = [js ''Hm'', js ''Hm''], children = []\<rparr>), hasErrors := True, hasWarnings := True\<rparr>"
     plain_host "js ''.''" "[]"]
  then show ?thesis
    by (simp add: r)
qed

text \<open>
  Claim C4. With the environments \<open>["production"]\<close> and a successful snapshot whose one
  child has the assets \<open>a.js.map\<close> (500), \<open>b.js\<close> (300) and \<open>c.js\<close> (900), the
  reporter writes the stats file and logs the report of exactly two assets, \<open>c.js\<close>
  (900) and then \<open>b.js\<close> (300); \<open>a.js.map\<close> is left out. Without a production
  environment no asset line is logged, whatever the compilation event; with one, the
  asset lines of a successful event are the reports of its children.
\<close>

theorem production_asset_report:
  "getStatsLogger h d [js ''production'']
     (None, \<lparr>toJson = (\<lambda>context. \<lparr>errors = [], warnings = [],
                 children = [\<lparr>child_name = n,
                              assets = [\<lparr>asset_name = js ''a.js.map'', asset_size = 500\<rparr>,
                                        \<lparr>asset_name = js ''b.js'', asset_size = 300\<rparr>,
                                        \<lparr>asset_name = js ''c.js'', asset_size = 900\<rparr>]\<rparr>]\<rparr>),
             hasErrors = False, hasWarnings = False\<rparr>)
   = [WriteFile (path_resolve h [d, js ''.fusion/stats.json''])
        (json_stringify h \<lparr>errors = [], warnings = [],
                 children = [\<lparr>child_name = n,
                              assets = [\<lparr>asset_name = js ''a.js.map'', asset_size = 500\<rparr>,
                                        \<lparr>asset_name = js ''b.js'', asset_size = 300\<rparr>,
                                        \<lparr>asset_name = js ''c.js'', asset_size = 900\<rparr>]\<rparr>]\<rparr>),
      LogInfo (js ''Entrypoint: '' @ chalk_bold h n),
      LogInfo (js ''Asset: '' @ chalk_bold h (js ''c.js'')),
      LogInfo (js ''Size: '' @ chalk_bold h (js ''900'') @ js '' bytes''),
      LogInfo (js ''Entrypoint: '' @ chalk_bold h n),
      LogInfo (js ''Asset: '' @ chalk_bold h (js ''b.js'')),
      LogInfo (js ''Size: '' @ chalk_bold h (js ''300'') @ js '' bytes'')]
   \<and> (js ''production'' \<notin> set envs \<longrightarrow> filter is_LogInfo (getStatsLogger h d envs c) = [])
   \<and> (js ''production'' \<in> set envs \<longrightarrow>
        filter is_LogInfo (getStatsLogger h d envs (None, st))
          = concat (map (child_report h) (children (toJson st (path_resolve h [d])))))"
proof -
  have n: "number_to_string 900 = js ''900''" "number_to_string 300 = js ''300''"
    by (simp_all add: number_to_string.simps js_def)
  have e: "endsWith (js ''a.js.map'') (js ''.map'')" "\<not> endsWith (js ''b.js'') (js ''.map'')"
      "\<not> endsWith (js ''c.js'') (js ''.map'')"
    by (simp_all add: endsWith_def js_def)
  have 1: "getStatsLogger h d [js ''production'']
     (None, \<lparr>toJson = (\<lambda>context. \<lparr>errors = [], warnings = [],
                 children = [\<lparr>child_name = n,
                              assets = [\<lparr>asset_name = js ''a.js.map'', asset_size = 500\<rparr>,
                                        \<lparr>asset_name = js ''b.js'', asset_size = 300\<rparr>,
                                        \<lparr>asset_name = js ''c.js'', asset_size = 900\<rparr>]\<rparr>]\<rparr>),
             hasErrors = False, hasWarnings = False\<rparr>)
   = [WriteFile (path_resolve h [d, js ''.fusion/stats.json''])
        (json_stringify h \<lparr>errors = [], warnings = [],
                 children = [\<lparr>child_name = n,
                              assets = [\<lparr>asset_name = js ''a.js.map'', asset_size = 500\<rparr>,
                                        \<lparr>asset_name = js ''b.js'', asset_size = 300\<rparr>,
                                        \<lparr>asset_name = js ''c.js'', asset_size = 900\<rparr>]\<rparr>]\<rparr>),
      LogInfo (js ''Entrypoint: '' @ chalk_bold h n),
      LogInfo (js ''Asset: '' @ chalk_bold h (js ''c.js'')),
      LogInfo (js ''Size: '' @ chalk_bold h (js ''900'') @ js '' bytes''),
      LogInfo (js ''Entrypoint: '' @ chalk_bold h n),
      LogInfo (js ''Asset: '' @ chalk_bold h (js ''b.js'')),
      LogInfo (js ''Size: '' @ chalk_bold h (js ''300'') @ js '' bytes'')]"
    by (simp add: getStatsLogger_def child_report_def asset_lines_def array_sort_def e n)
  have 2: "js ''production'' \<notin> set envs \<longrightarrow> filter is_LogInfo (getStatsLogger h d envs c) = []"
    by (cases c)
       (simp add: getStatsLogger_def Let_def filter_map_LogError filter_map_LogWarn
          split: option.splits)
  have 3: "js ''production'' \<in> set envs \<longrightarrow>
        filter is_LogInfo (getStatsLogger h d envs (None, st))
          = concat (map (child_report h) (children (toJson st (path_resolve h [d]))))"
    by (simp add: getStatsLogger_def Let_def filter_map_LogError filter_map_LogWarn
          filter_children_report)
  from 1 2 3 show ?thesis
    by (intro conjI)
qed


theorem production_asset_report_witness:
  "js ''production'' \<notin> set [js ''development'']
   \<and> filter is_LogInfo (getStatsLogger plain_host (js ''.'') [js ''development'']
        (None, \<lparr>toJson = (\<lambda>context. \<lparr>errors = [], warnings = [],
                 children = [\<lparr>child_name = js ''client'',
                              assets = [\<lparr>asset_name = js ''a.js.map'', asset_size = 500\<rparr>,
                                        \<lparr>asset_name = js ''b.js'', asset_size = 300\<rparr>,
                                        \<lparr>asset_name = js ''c.js'', asset_size = 900\<rparr>]\<rparr>]\<rparr>),
             hasErrors = False, hasWarnings = False\<rparr>)) = []
   \<and> js ''production'' \<in> set [js ''production'']
   \<and> filter is_LogInfo (getStatsLogger plain_host (js ''.'') [js ''production'']
        (None, \<lparr>toJson = (\<lambda>context. \<lparr>errors = [], warnings = [],
                 children = [\<lparr>child_name = js ''client'',
                              assets = [\<lparr>asset_name = js ''a.js.map'', asset_size = 500\<rparr>,
                                        \<lparr>asset_name = js ''b.js'', asset_size = 300\<rparr>,
                                        \<lparr>asset_name = js ''c.js'', asset_size = 900\<rparr>]\<rparr>]\<rparr>),
             hasErrors = False, hasWarnings = False\<rparr>))
      = [LogInfo (js ''Entrypoint: client''), LogInfo (js ''Asset: c.js''), LogInfo (js ''Size: 900 bytes''),
         LogInfo (js ''Entrypoint: client''), LogInfo (js ''Asset: b.js''), LogInfo (js ''Size: 300 bytes'')]"
proof -
  let ?st = "\<lparr>toJson = (\<lambda>context. \<lparr>errors = [], warnings = [],
                 children = [\<lparr>child_name = js ''client'',
                              assets = [\<lparr>asset_name = js ''a.js.map'', asset_size = 500\<rparr>,
                                        \<lparr>asset_name = js ''b.js'', asset_size = 300\<rparr>,
                                        \<lparr>asset_name = js ''c.js'', asset_size = 900\<rparr>]\<rparr>]\<rparr>),
             hasErrors = False, hasWarnings = False\<rparr>"
  have d: "js ''production'' \<notin> set [js ''development'']"
    by (simp add: js_def)
  note T = production_asset_report [of plain_host "js ''.''" "js ''client''" "[js ''development'']"
     "(None, ?st)" ?st]
  from T d have a: "filter is_LogInfo (getStatsLogger plain_host (js ''.'') [js ''development''] (None, ?st)) = []"
    by blast
  from T have "getStatsLogger plain_host (js ''.'') [js ''production''] (None, ?st)
     = [WriteFile (path_resolve plain_host [js ''.'', js ''.fusion/stats.json''])
        (json_stringify plain_host \<lparr>errors = [], warnings = [],
                 children = [\<lparr>child_name = js ''client'',
                              assets = [\<lparr>asset_name = js ''a.js.map'', asset_size = 500\<rparr>,
                                        \<lparr>asset_name = js ''b.js'', asset_size = 300\<rparr>,
                                        \<lparr>asset_name = js ''c.js'', asset_size = 900\<rparr>]\<rparr>]\<rparr>),
      LogInfo (js ''Entrypoint: '' @ chalk_bold plain_host (js ''client'')),
      LogInfo (js ''Asset: '' @ chalk_bold plain_host (js ''c.js'')),
      LogInfo (js ''Size: '' @ chalk_bold plain_host (js ''900'') @ js '' bytes''),
      LogInfo (js ''Entrypoint: '' @ chalk_bold plain_host (js ''client'')),
      LogInfo (js ''Asset: '' @ chalk_bold plain_host (js ''b.js'')),
      LogInfo (js ''Size: '' @ chalk_bold plain_host (js ''300'') @ js '' bytes'')]"
    by blast
  then have b: "filter is_LogInfo (getStatsLogger plain_host (js ''.'') [js ''production''] (None, ?st))
      = [LogInfo (js ''Entrypoint: client''), LogInfo (js ''Asset: c.js''), LogInfo (js ''Size: 900 bytes''),
         LogInfo (js ''Entrypoint: client''), LogInfo (js ''Asset: b.js''), LogInfo (js ''Size: 300 bytes'')]"
    by (simp add: plain_host_def js_def)
  from d a b show ?thesis
    by simp
qed

text \<open>
  Claim C1. In watch mode, when the engine calls the completion handler for the
  completions \<open>c # cs\<close>, the reporter runs once for each of them, in order, and the
  callback of \<open>start\<close> is called exactly once, right after the reporter's first run,
  with the arguments of the first completion. Every later completion adds only the calls
  of the tapped hooks and the reporter's run; a callback tapped on \<open>done\<close> through
  \<open>on\<close> is called at every completion.
\<close>

theorem watch_callback_once:
  "c_watch C \<longrightarrow>
     start h C (Some (Spy k)) (c # cs) =
       Inr (WatchCalled # fire (c_compiler C) (js ''done'') (snd c)
            @ [Reported (getStatsLogger h (c_dir C) (c_envs C) c), Called k (fst c) (snd c)]
            @ concat (map (\<lambda>c'. fire (c_compiler C) (js ''done'') (snd c')
                                 @ [Reported (getStatsLogger h (c_dir C) (c_envs C) c')]) cs),
            Watching)
   \<and> (\<exists>tr. start h C (Some (Spy k)) (c # cs) = Inr (tr, Watching)
        \<and> filter is_Reported tr
            = map (\<lambda>c'. Reported (getStatsLogger h (c_dir C) (c_envs C) c')) (c # cs)
        \<and> length (filter is_Reported tr) = length (c # cs)
        \<and> filter is_Called tr = [Called k (fst c) (snd c)]
        \<and> filter is_Hooked tr
            = concat (map (\<lambda>c'. fire (c_compiler C) (js ''done'') (snd c')) (c # cs)))
   \<and> (\<forall>C0 j. on C0 (js ''done'') j = Inr C \<longrightarrow>
        (\<forall>c' \<in> set (c # cs).
           Hooked (js ''done'') j (snd c') \<in> set (fire (c_compiler C) (js ''done'') (snd c'))))"
proof (intro impI)
  assume w: "c_watch C"
  let ?R = "\<lambda>c'. Reported (getStatsLogger h (c_dir C) (c_envs C) c')"
  let ?F = "\<lambda>c'. fire (c_compiler C) (js ''done'') (snd c')"
  let ?tr = "WatchCalled # ?F c @ [?R c, Called k (fst c) (snd c)]
            @ concat (map (\<lambda>c'. ?F c' @ [?R c']) cs)"
  have s: "start h C (Some (Spy k)) (c # cs) = Inr (?tr, Watching)"
    using w by (simp add: start_def Let_def deliver_first del: deliver.simps)
  have later: "filter is_Reported (concat (map (\<lambda>c'. ?F c' @ [?R c']) cs)) = map ?R cs"
      "filter is_Called (concat (map (\<lambda>c'. ?F c' @ [?R c']) cs)) = []"
      "filter is_Hooked (concat (map (\<lambda>c'. ?F c' @ [?R c']) cs)) = concat (map ?F cs)"
    by (induction cs) (simp_all add: filter_fire)
  have f1: "filter is_Reported ?tr = map ?R (c # cs)"
    by (simp add: filter_fire later)
  have f2: "filter is_Called ?tr = [Called k (fst c) (snd c)]"
    by (simp add: filter_fire later)
  have f3: "filter is_Hooked ?tr = concat (map ?F (c # cs))"
    by (simp add: filter_fire later)
  have f4: "length (filter is_Reported ?tr) = length (c # cs)"
    by (simp only: f1 length_map)
  have hook: "\<forall>C0 j. on C0 (js ''done'') j = Inr C \<longrightarrow>
        (\<forall>c' \<in> set (c # cs). Hooked (js ''done'') j (snd c') \<in> set (?F c'))"
    by (auto simp: on_def fire_def update_conv' split: option.splits)
  from s f1 f2 f3 f4 hook
  show "start h C (Some (Spy k)) (c # cs) = Inr (?tr, Watching)
   \<and> (\<exists>tr. start h C (Some (Spy k)) (c # cs) = Inr (tr, Watching)
        \<and> filter is_Reported tr = map ?R (c # cs)
        \<and> length (filter is_Reported tr) = length (c # cs)
        \<and> filter is_Called tr = [Called k (fst c) (snd c)]
        \<and> filter is_Hooked tr = concat (map ?F (c # cs)))
   \<and> (\<forall>C0 j. on C0 (js ''done'') j = Inr C \<longrightarrow>
        (\<forall>c' \<in> set (c # cs). Hooked (js ''done'') j (snd c') \<in> set (?F c')))"
    by blast
qed


lemma watching_compiler_fields:
  "c_dir watching_compiler = js ''.''"
  "c_envs watching_compiler = [js ''development'']"
  "c_watch watching_compiler"
  "hooks (c_compiler watching_compiler) =
     [(js ''done'', []), (js ''invalid'', []), (js ''run'', []),
      (js ''watchClose'', []), (js ''watchRun'', [])]"
  by (simp_all add: watching_compiler_def Compiler_dir Compiler_envs Compiler_watch Compiler_hooks)

lemma one_shot_compiler_fields:
  "c_dir one_shot_compiler = js ''.''"
  "c_envs one_shot_compiler = [js ''development'']"
  "\<not> c_watch one_shot_compiler"
  "hooks (c_compiler one_shot_compiler) =
     [(js ''done'', []), (js ''invalid'', []), (js ''run'', []),
      (js ''watchClose'', []), (js ''watchRun'', [])]"
  by (simp_all add: one_shot_compiler_def Compiler_dir Compiler_envs Compiler_watch Compiler_hooks)

lemma on_watching_compiler:
  "on watching_compiler (js ''done'') 9 = Inr done_tapped"
  by (simp add: done_tapped_def on_def watching_compiler_fields)

lemma done_tapped_fields:
  "c_dir done_tapped = js ''.''"
  "c_envs done_tapped = [js ''development'']"
  "c_watch done_tapped"
  "fire (c_compiler done_tapped) (js ''done'') s = [Hooked (js ''done'') 9 s]"
  by (simp_all add: done_tapped_def on_def fire_def watching_compiler_fields)

lemma fire_untapped:
  "fire (c_compiler watching_compiler) (js ''done'') s = []"
  "fire (c_compiler one_shot_compiler) (js ''done'') s = []"
  by (simp_all add: fire_def watching_compiler_fields one_shot_compiler_fields)

lemma report_quiet:
  "getStatsLogger plain_host (js ''.'') envs (None, quiet_stats) =
     [WriteFile (js ''/./.fusion/stats.json'') (js ''{}'')]"
  by (simp add: getStatsLogger_def quiet_stats_def plain_host_def dedupeErrors_def js_def)

lemma report_failure:
  "getStatsLogger plain_host (js ''.'') envs (Some failure, quiet_stats) = [LogError (Obj failure)]"
  by (simp add: getStatsLogger_def failure_def)

theorem watch_callback_once_witness:
  "on watching_compiler (js ''done'') 9 = Inr done_tapped
   \<and> c_watch done_tapped
   \<and> start plain_host done_tapped (Some (Spy 7))
        [(None, quiet_stats), (None, quiet_stats), (None, quiet_stats)]
      = Inr ([WatchCalled,
              Hooked (js ''done'') 9 quiet_stats,
              Reported [WriteFile (js ''/./.fusion/stats.json'') (js ''{}'')],
              Called 7 None quiet_stats,
              Hooked (js ''done'') 9 quiet_stats,
              Reported [WriteFile (js ''/./.fusion/stats.json'') (js ''{}'')],
              Hooked (js ''done'') 9 quiet_stats,
              Reported [WriteFile (js ''/./.fusion/stats.json'') (js ''{}'')]], Watching)"
  using watch_callback_once [of done_tapped plain_host 7 "(None, quiet_stats)"
          "[(None, quiet_stats), (None, quiet_stats)]"]
  by (simp add: on_watching_compiler done_tapped_fields report_quiet report_failure)


lemma start_trace:
  "start h C cb (c # cs) =
     Inr ((if c_watch C then WatchCalled else RunCalled)
          # fire (c_compiler C) (js ''done'') (snd c)
          @ Reported (getStatsLogger h (c_dir C) (c_envs C) c)
          # (case cb of None \<Rightarrow> [] | Some Noop \<Rightarrow> [] | Some (Spy k) \<Rightarrow> [Called k (fst c) (snd c)])
          @ concat (map (\<lambda>c'. fire (c_compiler C) (js ''done'') (snd c')
                               @ [Reported (getStatsLogger h (c_dir C) (c_envs C) c')]) cs),
          if c_watch C then Watching else Stub)"
  by (simp add: start_def Let_def deliver_first del: deliver.simps split: option.splits fn.splits)

lemma start_nothing:
  "start h C cb [] =
     Inr ([if c_watch C then WatchCalled else RunCalled], if c_watch C then Watching else Stub)"
  by (simp add: start_def Let_def)

lemma filter_later:
  "filter is_Reported (concat (map (\<lambda>c'. fire E t (snd c') @ [Reported (f c')]) cs))
     = map (\<lambda>c'. Reported (f c')) cs"
  "filter is_Called (concat (map (\<lambda>c'. fire E t (snd c') @ [Reported (f c')]) cs)) = []"
  "filter is_RunCalled (concat (map (\<lambda>c'. fire E t (snd c') @ [Reported (f c')]) cs)) = []"
  "filter is_WatchCalled (concat (map (\<lambda>c'. fire E t (snd c') @ [Reported (f c')]) cs)) = []"
  "filter is_Hooked (concat (map (\<lambda>c'. fire E t (snd c') @ [Reported (f c')]) cs))
     = concat (map (\<lambda>c'. fire E t (snd c')) cs)"
  by (induction cs) (simp_all add: filter_fire)

text \<open>
  Claim C2. Without watch mode \<open>start(cb)\<close> calls \<open>compiler.run\<close> once and never
  \<open>compiler.watch\<close>; the reporter runs and then \<open>cb\<close> is called, exactly once, with
  the \<open>(err, stats)\<close> of the completion; the controller returned is the stub, whose
  \<open>close\<close> and \<open>invalidate\<close> do nothing. When \<open>cb\<close> is left out, the run ends
  without an exception and without a call of any callback, whereas calling
  \<open>undefined\<close> would be a \<open>TypeError\<close>.
\<close>

theorem one_shot_start:
  "(\<not> c_watch C \<longrightarrow>
      start h C (Some (Spy k)) [c] =
        Inr (RunCalled # fire (c_compiler C) (js ''done'') (snd c)
             @ [Reported (getStatsLogger h (c_dir C) (c_envs C) c), Called k (fst c) (snd c)], Stub)
    \<and> (\<exists>tr pre post.
          start h C (Some (Spy k)) (c # cs) = Inr (tr, Stub)
        \<and> filter is_RunCalled tr = [RunCalled]
        \<and> filter is_WatchCalled tr = []
        \<and> filter is_Called tr = [Called k (fst c) (snd c)]
        \<and> tr = pre @ [Reported (getStatsLogger h (c_dir C) (c_envs C) c), Called k (fst c) (snd c)] @ post
        \<and> filter is_Reported pre = [])
    \<and> (\<exists>tr. start h C None (c # cs) = Inr (tr, Stub) \<and> filter is_Called tr = []))
   \<and> close Stub = [] \<and> invalidate Stub = []
   \<and> (\<exists>tr ctl. start h C None cs = Inr (tr, ctl) \<and> filter is_Called tr = [])
   \<and> invoke None c = Inl TypeError"
proof -
  let ?R = "\<lambda>c'. Reported (getStatsLogger h (c_dir C) (c_envs C) c')"
  let ?F = "\<lambda>c'. fire (c_compiler C) (js ''done'') (snd c')"
  let ?later = "concat (map (\<lambda>c'. ?F c' @ [?R c']) cs)"
  have a: "\<not> c_watch C \<longrightarrow> start h C (Some (Spy k)) [c] =
        Inr (RunCalled # ?F c @ [?R c, Called k (fst c) (snd c)], Stub)"
    by (simp add: start_trace)
  have b: "\<not> c_watch C \<longrightarrow> (\<exists>tr pre post.
          start h C (Some (Spy k)) (c # cs) = Inr (tr, Stub)
        \<and> filter is_RunCalled tr = [RunCalled]
        \<and> filter is_WatchCalled tr = []
        \<and> filter is_Called tr = [Called k (fst c) (snd c)]
        \<and> tr = pre @ [?R c, Called k (fst c) (snd c)] @ post
        \<and> filter is_Reported pre = [])"
  proof
    assume w: "\<not> c_watch C"
    let ?tr = "RunCalled # ?F c @ [?R c, Called k (fst c) (snd c)] @ ?later"
    have 1: "start h C (Some (Spy k)) (c # cs) = Inr (?tr, Stub)"
      using w by (simp add: start_trace)
    have 2: "filter is_RunCalled ?tr = [RunCalled]" "filter is_WatchCalled ?tr = []"
        "filter is_Called ?tr = [Called k (fst c) (snd c)]"
      by (simp_all add: filter_fire filter_later)
    have 3: "?tr = (RunCalled # ?F c) @ [?R c, Called k (fst c) (snd c)] @ ?later"
      by simp
    have 4: "filter is_Reported (RunCalled # ?F c) = []"
      by (simp add: filter_fire)
    from 1 2 3 4 show "\<exists>tr pre post.
          start h C (Some (Spy k)) (c # cs) = Inr (tr, Stub)
        \<and> filter is_RunCalled tr = [RunCalled]
        \<and> filter is_WatchCalled tr = []
        \<and> filter is_Called tr = [Called k (fst c) (snd c)]
        \<and> tr = pre @ [?R c, Called k (fst c) (snd c)] @ post
        \<and> filter is_Reported pre = []"
      by blast
  qed
  have c: "\<not> c_watch C \<longrightarrow> (\<exists>tr. start h C None (c # cs) = Inr (tr, Stub) \<and> filter is_Called tr = [])"
    by (simp add: start_trace filter_fire filter_later)
  have d: "\<exists>tr ctl. start h C None cs = Inr (tr, ctl) \<and> filter is_Called tr = []"
    by (cases cs) (simp_all add: start_trace start_nothing filter_fire filter_later)
  have e: "invoke None c = Inl TypeError"
    by (simp add: invoke_def)
  from a b c d e show ?thesis
    by simp
qed

theorem one_shot_start_witness:
  "\<not> c_watch one_shot_compiler
   \<and> start plain_host one_shot_compiler (Some (Spy 7)) [(None, quiet_stats)]
      = Inr ([RunCalled,
              Reported [WriteFile (js ''/./.fusion/stats.json'') (js ''{}'')],
              Called 7 None quiet_stats], Stub)"
  using one_shot_start [of one_shot_compiler plain_host 7 "(None, quiet_stats)"]
  by (simp add: one_shot_compiler_fields fire_untapped report_quiet)

text \<open>
  Claim C7, amended. For a compilation event with a hard error the reporter logs the
  error (its stack when that is a non-empty string, the error object otherwise), then
  its details when there are any, and nothing else: no stats file is written, no warning
  and no asset line is logged. The error is passed to the callback of \<open>start\<close> when it
  comes with the first completion of the run; the callback is called for the first
  completion only, so that when the first completion has no error the callback is called
  with \<open>null\<close>, whatever the later completions carry.
\<close>

theorem hard_error_logged_and_forwarded_when_first:
  "getStatsLogger h d envs (Some e, st) =
      LogError (case stack e of Some s \<Rightarrow> if s \<noteq> [] then Str s else Obj e | None \<Rightarrow> Obj e)
      # (case details e of Some x \<Rightarrow> if x \<noteq> [] then [LogError (Str x)] else [] | None \<Rightarrow> [])
   \<and> filter is_WriteFile (getStatsLogger h d envs (Some e, st)) = []
   \<and> filter is_LogWarn (getStatsLogger h d envs (Some e, st)) = []
   \<and> filter is_LogInfo (getStatsLogger h d envs (Some e, st)) = []
   \<and> length (getStatsLogger h d envs (Some e, st)) \<le> 2
   \<and> (\<exists>tr ctl. start h C (Some (Spy k)) ((Some e, st) # cs) = Inr (tr, ctl)
         \<and> filter is_Called tr = [Called k (Some e) st])
   \<and> (\<exists>tr ctl. start h C (Some (Spy k)) ((None, st0) # cs) = Inr (tr, ctl)
         \<and> filter is_Called tr = [Called k None st0])"
  by (simp add: getStatsLogger_def start_trace filter_fire filter_later
        split: option.splits)

theorem hard_error_logged_and_forwarded_when_first_witness:
  "getStatsLogger plain_host (js ''.'') [js ''production'']
      (Some \<lparr>message = js ''boom'', stack = Some (js ''Error: boom at x''), details = Some (js ''why'')\<rparr>,
       quiet_stats)
     = [LogError (Str (js ''Error: boom at x'')), LogError (Str (js ''why''))]
   \<and> (\<exists>tr ctl. start plain_host one_shot_compiler (Some (Spy 7)) [(Some failure, quiet_stats)] = Inr (tr, ctl)
         \<and> filter is_Called tr = [Called 7 (Some failure) quiet_stats])"
proof -
  note T1 = hard_error_logged_and_forwarded_when_first [of plain_host "js ''.''" "[js ''production'']"
      "\<lparr>message = js ''boom'', stack = Some (js ''Error: boom at x''), details = Some (js ''why'')\<rparr>"
      quiet_stats one_shot_compiler 7 "[]" quiet_stats]
  note T2 = hard_error_logged_and_forwarded_when_first [of plain_host "js ''.''" "[]" failure quiet_stats
      one_shot_compiler 7 "[]" quiet_stats]
  from T1 have a: "getStatsLogger plain_host (js ''.'') [js ''production'']
      (Some \<lparr>message = js ''boom'', stack = Some (js ''Error: boom at x''), details = Some (js ''why'')\<rparr>,
       quiet_stats)
     = [LogError (Str (js ''Error: boom at x'')), LogError (Str (js ''why''))]"
    by (simp add: js_def)
  from T2 have b: "\<exists>tr ctl. start plain_host one_shot_compiler (Some (Spy 7)) [(Some failure, quiet_stats)] = Inr (tr, ctl)
         \<and> filter is_Called tr = [Called 7 (Some failure) quiet_stats]"
    by blast
  from a b show ?thesis
    by (rule conjI)
qed

text \<open>
  Claim C7 as it is stated fails in watch mode: a hard error that comes with the second
  completion is logged and is not passed to the callback.
\<close>

theorem later_hard_error_not_forwarded:
  "start plain_host watching_compiler (Some (Spy 7))
        [(None, quiet_stats), (Some failure, quiet_stats)]
      = Inr ([WatchCalled,
              Reported [WriteFile (js ''/./.fusion/stats.json'') (js ''{}'')],
              Called 7 None quiet_stats,
              Reported [LogError (Obj failure)]], Watching)"
  by (simp add: start_trace watching_compiler_fields fire_untapped report_quiet report_failure)

lemma length_marker: "length marker = 16"
  by (simp add: marker_def js_def)

lemma length_trace_fragment: "length trace_fragment = 16"
  by (simp add: trace_fragment_def js_def)

lemma literal_i_exact:
  "map canonicalize t = map canonicalize p \<Longrightarrow> literal_i p (t @ rest)"
proof -
  assume a: "map canonicalize t = map canonicalize p"
  then have "length t = length p"
    by (rule map_eq_imp_length_eq)
  with a show ?thesis
    by (simp add: literal_i_def)
qed

lemma literal_i_take:
  "length p \<le> n \<Longrightarrow> literal_i p (take n s) = literal_i p s"
  by (auto simp: literal_i_def min_def)

lemma occurs_i_drop:
  "literal_i p (drop j x) \<Longrightarrow> occurs_i p x"
proof (induction x arbitrary: j)
  case Nil
  then show ?case by simp
next
  case (Cons c cs)
  then show ?case by (cases j) auto
qed

lemma occurs_i_iff:
  "occurs_i p x \<longleftrightarrow> (\<exists>j. literal_i p (drop j x))"
proof
  show "occurs_i p x \<Longrightarrow> \<exists>j. literal_i p (drop j x)"
  proof (induction x)
    case Nil
    then show ?case by simp
  next
    case (Cons c cs)
    show ?case
    proof (cases "literal_i p (c # cs)")
      case True
      then have "literal_i p (drop 0 (c # cs))" by simp
      then show ?thesis by blast
    next
      case False
      with Cons.prems have "occurs_i p cs" by simp
      then obtain j where "literal_i p (drop j cs)"
        using Cons.IH by blast
      then have "literal_i p (drop (Suc j) (c # cs))" by simp
      then show ?thesis by blast
    qed
  qed
next
  show "\<exists>j. literal_i p (drop j x) \<Longrightarrow> occurs_i p x"
    using occurs_i_drop by blast
qed

lemma occurs_i_suffix:
  "occurs_i p (drop n x) \<Longrightarrow> occurs_i p x"
proof -
  assume "occurs_i p (drop n x)"
  then obtain j where "literal_i p (drop j (drop n x))"
    unfolding occurs_i_iff by blast
  then have "literal_i p (drop (j + n) x)"
    by (simp add: add.commute)
  then show ?thesis
    by (rule occurs_i_drop)
qed

lemma group1_none:
  "\<not> occurs_i trace_fragment (tl x) \<Longrightarrow> group1 x = None"
proof (induction x)
  case Nil
  then show ?case by simp
next
  case (Cons c cs)
  then have cs: "\<not> occurs_i trace_fragment cs"
    by simp
  have "\<not> literal_i trace_fragment cs"
    using cs occurs_i_drop [of trace_fragment 0 cs] by auto
  moreover have "\<not> occurs_i trace_fragment (tl cs)"
    using cs occurs_i_drop [of trace_fragment _ "tl cs"] by (cases cs) auto
  then have "group1 cs = None"
    by (rule Cons.IH)
  ultimately show ?case by simp
qed

lemma group1_mid:
  "mid \<noteq> [] \<Longrightarrow> list_all dot_or_newline mid \<Longrightarrow> literal_i trace_fragment rest \<Longrightarrow>
   group1 rest = None \<Longrightarrow> group1 (mid @ rest) = Some (length mid)"
proof (induction mid rule: list_nonempty_induct)
  case (single c)
  then show ?case by simp
next
  case (cons c cs)
  then show ?case by simp
qed


lemma re_exec_match:
  assumes m: "map canonicalize m = map canonicalize marker"
    and t: "map canonicalize t = map canonicalize trace_fragment"
    and mid: "mid \<noteq> []" "list_all dot_or_newline mid"
    and last: "\<not> occurs_i trace_fragment (tl t @ post)"
  shows "re_exec (m @ mid @ t @ post) = Some (length m + length mid + length t, t)"
proof -
  have lm: "length m = length marker"
    using m by (rule map_eq_imp_length_eq)
  have lt: "length t = length trace_fragment"
    using t by (rule map_eq_imp_length_eq)
  have "t \<noteq> []"
    using lt by (auto simp: length_trace_fragment)
  then have "tl (t @ post) = tl t @ post"
    by simp
  with last have "group1 (t @ post) = None"
    by (simp add: group1_none)
  with mid t have g: "group1 (mid @ t @ post) = Some (length mid)"
    by (simp add: group1_mid literal_i_exact)
  have "literal_i marker (m @ mid @ t @ post)"
    using m by (rule literal_i_exact)
  with g lm lt show ?thesis
    by (simp add: re_exec_def)
qed

lemma replace_re_unmatched:
  "\<not> occurs_i trace_fragment x \<Longrightarrow> replace_re x = x"
proof (induction x)
  case Nil
  then show ?case by simp
next
  case (Cons c cs)
  have "\<not> occurs_i trace_fragment (tl (drop (length marker) (c # cs)))"
  proof
    assume "occurs_i trace_fragment (tl (drop (length marker) (c # cs)))"
    then have "occurs_i trace_fragment (drop (length marker) cs)"
      by (simp add: drop_Suc tl_drop)
    then have "occurs_i trace_fragment cs"
      by (rule occurs_i_suffix)
    with Cons.prems show False by simp
  qed
  then have "group1 (drop (length marker) (c # cs)) = None"
    by (rule group1_none)
  then have "re_exec (c # cs) = None"
    by (simp add: re_exec_def)
  moreover from Cons.prems have "\<not> occurs_i trace_fragment cs" by simp
  ultimately show ?case
    by (simp add: Cons.IH)
qed


lemma replace_re_before:
  "\<forall>i<length pre. \<not> literal_i marker (drop i (pre @ rest)) \<Longrightarrow>
   replace_re (pre @ rest) = pre @ replace_re rest"
proof (induction pre)
  case Nil
  then show ?case by simp
next
  case (Cons c cs)
  from Cons.prems have "\<not> literal_i marker (drop 0 ((c # cs) @ rest))"
    by blast
  then have e: "re_exec (c # cs @ rest) = None"
    by (simp add: re_exec_def)
  have "\<forall>i<length cs. \<not> literal_i marker (drop i (cs @ rest))"
  proof (intro allI impI)
    fix i assume "i < length cs"
    then have "Suc i < length (c # cs)" by simp
    with Cons.prems have "\<not> literal_i marker (drop (Suc i) ((c # cs) @ rest))"
      by blast
    then show "\<not> literal_i marker (drop i (cs @ rest))" by simp
  qed
  then have "replace_re (cs @ rest) = cs @ replace_re rest"
    by (rule Cons.IH)
  with e show ?case by simp
qed

lemma marker_not_before:
  assumes m: "length m = length marker"
    and no: "\<not> occurs_i marker (pre @ butlast m)"
  shows "\<forall>i<length pre. \<not> literal_i marker (drop i (pre @ m @ rest))"
proof (intro allI impI notI)
  fix i assume i: "i < length pre" and l: "literal_i marker (drop i (pre @ m @ rest))"
  let ?n = "length pre - i + 15"
  have "take ?n (drop i (pre @ m @ rest)) = drop i pre @ take 15 (m @ rest)"
    using i by simp
  also have "take 15 (m @ rest) = butlast m"
    using m by (simp add: length_marker butlast_conv_take)
  finally have "take ?n (drop i (pre @ m @ rest)) = drop i (pre @ butlast m)"
    using i by simp
  moreover have "length marker \<le> ?n"
    using i by (simp add: length_marker)
  ultimately have "literal_i marker (drop i (pre @ butlast m))"
    using l literal_i_take [of marker ?n "drop i (pre @ m @ rest)"] by simp
  then have "occurs_i marker (pre @ butlast m)"
    by (rule occurs_i_drop)
  with no show False by simp
qed

lemma replace_re_collapse:
  assumes m: "map canonicalize m = map canonicalize marker"
    and t: "map canonicalize t = map canonicalize trace_fragment"
    and mid: "mid \<noteq> []" "list_all dot_or_newline mid"
    and first: "\<not> occurs_i marker (pre @ butlast m)"
    and last: "\<not> occurs_i trace_fragment (tl t @ post)"
  shows "replace_re (pre @ m @ mid @ t @ post) = pre @ t @ post"
proof -
  have lm: "length m = length marker"
    using m by (rule map_eq_imp_length_eq)
  have lt: "length t = length trace_fragment"
    using t by (rule map_eq_imp_length_eq)
  obtain c m' where c: "m = c # m'"
    using lm by (cases m) (auto simp: length_marker)
  have e: "re_exec (m @ mid @ t @ post) = Some (length m + length mid + length t, t)"
    using m t mid last by (rule re_exec_match)
  have "occurs_i trace_fragment post \<Longrightarrow> False"
  proof -
    assume "occurs_i trace_fragment post"
    moreover have "post = drop (length t - 1) (tl t @ post)"
      by simp
    ultimately have "occurs_i trace_fragment (tl t @ post)"
      using occurs_i_suffix [of trace_fragment "length t - 1" "tl t @ post"] by simp
    with last show False by simp
  qed
  then have p: "replace_re post = post"
    using replace_re_unmatched by blast
  have "replace_re (m @ mid @ t @ post) = t @ replace_re (drop (length m + length mid + length t) (m @ mid @ t @ post))"
    using e unfolding c by simp
  then have "replace_re (m @ mid @ t @ post) = t @ post"
    by (simp add: p)
  moreover have "replace_re (pre @ m @ mid @ t @ post) = pre @ replace_re (m @ mid @ t @ post)"
    using marker_not_before [OF lm first] by (rule replace_re_before)
  ultimately show ?thesis by simp
qed


text \<open>
  Claim C5, amended. Let a message be \<open>pre @ m @ mid @ t @ post\<close>, where \<open>m\<close> is the
  first occurrence of the marker in the whole message (none starts in \<open>pre\<close>), \<open>t\<close> is
  the last occurrence of the stack-trace fragment in the whole message (none starts after
  the start of \<open>t\<close>), and \<open>mid\<close>, the whole text between that first marker and that
  last fragment, is not empty and has no CR, U+2028 or U+2029 anywhere (it may hold
  further markers and fragments). Then \<open>dedupeErrors\<close> removes \<open>m\<close> and \<open>mid\<close>: the
  message becomes \<open>pre @ t @ post\<close>. Of all the marker/trace pairs only the last
  stack-trace fragment is kept, and no marker. Nothing is said of a message in which a
  CR, U+2028 or U+2029 stands between the first marker and the last fragment.
\<close>

theorem dedupeErrors_keeps_last_trace_only:
  assumes "map canonicalize m = map canonicalize marker"
    and "map canonicalize t = map canonicalize trace_fragment"
    and "mid \<noteq> []"
    and "list_all dot_or_newline mid"
    and "\<not> occurs_i marker (pre @ butlast m)"
    and "\<not> occurs_i trace_fragment (tl t @ post)"
  shows "replace_re (pre @ m @ mid @ t @ post) = pre @ t @ post
    \<and> dedupeErrors (xs @ [pre @ m @ mid @ t @ post] @ ys)
        = dedupeErrors xs @ [pre @ t @ post] @ dedupeErrors ys
    \<and> map (\<lambda>e. LogError (Str e)) (dedupeErrors [pre @ m @ mid @ t @ post])
        = [LogError (Str (pre @ t @ post))]"
  using replace_re_collapse [OF assms] by (simp add: dedupeErrors_def)

theorem dedupeErrors_keeps_last_trace_only_witness:
  "map canonicalize (js ''BabelLoaderError'') = map canonicalize marker
   \<and> map canonicalize (js ''    at transpile'') = map canonicalize trace_fragment
   \<and> js '': x\<newline>    at transpile (a)\<newline>BabelLoaderError: x\<newline>'' \<noteq> []
   \<and> list_all dot_or_newline (js '': x\<newline>    at transpile (a)\<newline>BabelLoaderError: x\<newline>'')
   \<and> \<not> occurs_i marker (js ''Module build failed: '' @ butlast (js ''BabelLoaderError''))
   \<and> \<not> occurs_i trace_fragment (tl (js ''    at transpile'') @ js '' (b)'')
   \<and> replace_re (js ''Module build failed: '' @ js ''BabelLoaderError''
         @ js '': x\<newline>    at transpile (a)\<newline>BabelLoaderError: x\<newline>''
         @ js ''    at transpile'' @ js '' (b)'')
       = js ''Module build failed: '' @ js ''    at transpile'' @ js '' (b)''"
proof -
  have 1: "map canonicalize (js ''BabelLoaderError'') = map canonicalize marker"
    by (simp add: marker_def)
  have 2: "map canonicalize (js ''    at transpile'') = map canonicalize trace_fragment"
    by (simp add: trace_fragment_def)
  have 3: "js '': x\<newline>    at transpile (a)\<newline>BabelLoaderError: x\<newline>'' \<noteq> []"
    by (simp add: js_def)
  have 4: "list_all dot_or_newline (js '': x\<newline>    at transpile (a)\<newline>BabelLoaderError: x\<newline>'')"
    by (simp add: js_def dot_or_newline_def dot_def line_terminator_def)
  have 5: "\<not> occurs_i marker (js ''Module build failed: '' @ butlast (js ''BabelLoaderError''))"
    by (simp add: re_eval)
  have 6: "\<not> occurs_i trace_fragment (tl (js ''    at transpile'') @ js '' (b)'')"
    by (simp add: re_eval)
  from dedupeErrors_keeps_last_trace_only [OF 1 2 3 4 5 6]
  have 7: "replace_re (js ''Module build failed: '' @ js ''BabelLoaderError''
         @ js '': x\<newline>    at transpile (a)\<newline>BabelLoaderError: x\<newline>''
         @ js ''    at transpile'' @ js '' (b)'')
       = js ''Module build failed: '' @ js ''    at transpile'' @ js '' (b)''"
    by blast
  from 1 2 3 4 5 6 7 show ?thesis
    by blast
qed

text \<open>
  Claim C5 as it is stated fails: for a message with the marker/trace pair twice, what is
  logged holds the last stack-trace fragment and no marker at all.
\<close>

theorem final_marker_not_retained:
  "dedupeErrors
     [js ''BabelLoaderError: x\<newline>    at transpile (a)\<newline>BabelLoaderError: x\<newline>    at transpile (b)'']
     = [js ''    at transpile (b)'']
   \<and> \<not> occurs_i marker (js ''    at transpile (b)'')"
  by (simp add: dedupeErrors_def re_eval)

end
